theory Spec2Isabelle
  imports Main "HOL-Library.Word" "HOL-Library.Char_ord" "HOL-Library.List_Lexorder"
    "HOL-Library.Multiset"
begin

section \<open>The storage router: a four-segment key-value table\<close>

text \<open>
  The module \<^verbatim>\<open>storage_router.py\<close> keeps one SQLite table \<^verbatim>\<open>automerge_storage\<close> with four
  text columns and one blob column, and five request handlers over it. Each handler is
  embedded as a function from the table before the call to the handler's outcome (the
  response, or the \<^verbatim>\<open>HTTPException\<close> it raises) paired with the table after the call.
\<close>

subsection \<open>Data\<close>

type_synonym bytes = "8 word list"

text \<open>One row of \<^verbatim>\<open>automerge_storage\<close>; the columns keep their SQL names.\<close>

record row =
  segment0 :: string
  segment1 :: string
  segment2 :: string
  segment3 :: string
  data :: bytes

text \<open>
  The table is the list of its rows in the order of their insertion (the order of the
  rowids): an \<^verbatim>\<open>INSERT\<close> adds a row at the end, an update keeps the row's place.
\<close>

type_synonym table = "row list"

datatype http_exception = HTTPException (status_code: nat) (detail: string)

datatype response = Response (content: bytes) (media_type: string)

text \<open>One element of the list \<^verbatim>\<open>load_range\<close> returns: \<^verbatim>\<open>{"key": ..., "data": ...}\<close>.\<close>

datatype range_item = RangeItem (item_key: "string list") (item_data: string)

text \<open>A JSON object with string values, such as \<^verbatim>\<open>{"status": "ok"}\<close>.\<close>

type_synonym json_dict = "(string \<times> string) list"

definition MAX_SEGMENTS :: nat where
  "MAX_SEGMENTS = 4"

definition HTTP_400_BAD_REQUEST :: nat where
  "HTTP_400_BAD_REQUEST = 400"

definition HTTP_404_NOT_FOUND :: nat where
  "HTTP_404_NOT_FOUND = 404"

definition status_ok :: json_dict where
  "status_ok = [(''status'', ''ok'')]"

subsection \<open>The primary key and the SQL statements\<close>

text \<open>
  The first four fields of a fetched row tuple, \<^verbatim>\<open>row[0]\<close> to \<^verbatim>\<open>row[3]\<close>; they are also
  the columns of \<^verbatim>\<open>PRIMARY KEY (segment0, segment1, segment2, segment3)\<close>.
\<close>

definition slots :: "row \<Rightarrow> string list" where
  "slots r = [segment0 r, segment1 r, segment2 r, segment3 r]"

text \<open>The table constraint: no two rows share their four segments.\<close>

definition primary_key_ok :: "table \<Rightarrow> bool" where
  "primary_key_ok db = distinct (map slots db)"

text \<open>
  \<^verbatim>\<open>WHERE segment0=? AND segment1=? AND segment2=? AND segment3=?\<close> with the four
  parameters \<open>ps\<close>. Text columns compare by exact equality.
\<close>

definition where_point :: "string list \<Rightarrow> row \<Rightarrow> bool" where
  "where_point ps r =
     (segment0 r = ps ! 0 \<and> segment1 r = ps ! 1 \<and> segment2 r = ps ! 2 \<and> segment3 r = ps ! 3)"

text \<open>
  The condition built by \<^verbatim>\<open>" AND ".join([f"segment{i} = ?" for i in range(len(key))])\<close>
  with the parameters \<^verbatim>\<open>tuple(key)\<close>.
\<close>

definition where_prefix :: "string list \<Rightarrow> row \<Rightarrow> bool" where
  "where_prefix key r = list_all (\<lambda>i. slots r ! i = key ! i) [0..<length key]"

text \<open>
  \<^verbatim>\<open>INSERT ... VALUES (?, ?, ?, ?, ?) ON CONFLICT(segment0, ..., segment3) DO UPDATE SET
  data=excluded.data\<close>: a row with the same four segments gets the new data in place,
  otherwise a new row is added.
\<close>

definition insert_or_update :: "table \<Rightarrow> string list \<Rightarrow> bytes \<Rightarrow> table" where
  "insert_or_update db ps d =
     (if list_ex (where_point ps) db
      then map (\<lambda>r. if where_point ps r then r\<lparr>data := d\<rparr> else r) db
      else db @ [\<lparr>segment0 = ps ! 0, segment1 = ps ! 1, segment2 = ps ! 2,
                  segment3 = ps ! 3, data = d\<rparr>])"

text \<open>
  \<^verbatim>\<open>cursor.execute(query, tuple(key))\<close> followed by \<^verbatim>\<open>cursor.fetchall()\<close> in
  \<^verbatim>\<open>load_range\<close>. The statement has no \<^verbatim>\<open>ORDER BY\<close>; its conditions are equalities on a
  leading run of the primary key's columns, so SQLite answers it from the primary key's
  index and the rows arrive in the order of that index: by \<^verbatim>\<open>segment0\<close>, then
  \<^verbatim>\<open>segment1\<close>, \<^verbatim>\<open>segment2\<close>, \<^verbatim>\<open>segment3\<close>, each compared as a sequence of bytes. The
  order is what the engine does, not a promise of the statement.
\<close>

definition fetchall_prefix :: "string list \<Rightarrow> table \<Rightarrow> row list" where
  "fetchall_prefix key db = sort_key slots (filter (where_prefix key) db)"

text \<open>\<^verbatim>\<open>cursor.fetchone()\<close>: the first row of the result, or \<^verbatim>\<open>None\<close>.\<close>

definition fetchone :: "'a list \<Rightarrow> 'a option" where
  "fetchone rows = (case rows of [] \<Rightarrow> None | x # _ \<Rightarrow> Some x)"

subsection \<open>Base64 of the standard library\<close>

text \<open>
  \<^verbatim>\<open>base64.b64encode(data).decode("utf-8")\<close>: the standard alphabet, three bytes to four
  characters, padded with \<^verbatim>\<open>=\<close>.
\<close>

definition b64_alphabet :: string where
  "b64_alphabet = ''ABCDEFGHIJKLMNOPQRSTUVWXYZabcdefghijklmnopqrstuvwxyz0123456789+/''"

definition b64_char :: "nat \<Rightarrow> char" where
  "b64_char n = b64_alphabet ! (n mod 64)"

fun b64encode :: "bytes \<Rightarrow> string" where
  "b64encode [] = []"
| "b64encode [a] =
     (let n = unat a * 65536
      in [b64_char (n div 262144), b64_char (n div 4096), CHR ''='', CHR ''=''])"
| "b64encode [a, b] =
     (let n = unat a * 65536 + unat b * 256
      in [b64_char (n div 262144), b64_char (n div 4096), b64_char (n div 64), CHR ''=''])"
| "b64encode (a # b # c # rest) =
     (let n = unat a * 65536 + unat b * 256 + unat c
      in [b64_char (n div 262144), b64_char (n div 4096), b64_char (n div 64), b64_char n]
         @ b64encode rest)"

subsection \<open>The key codec\<close>

definition pad_segments :: "string list \<Rightarrow> http_exception + string list" where
  "pad_segments key =
     (if length key > MAX_SEGMENTS
      then Inl (HTTPException HTTP_400_BAD_REQUEST ''Key cannot have more than 4 segments'')
      else Inr (key @ replicate (MAX_SEGMENTS - length key) ''''))"

text \<open>
  The reconstruction in \<^verbatim>\<open>load_range\<close>:
  \<^verbatim>\<open>[row[i] for i in range(MAX_SEGMENTS) if row[i] != ""]\<close>.
\<close>

definition original_key :: "row \<Rightarrow> string list" where
  "original_key r = filter (\<lambda>s. s \<noteq> '''') (map (\<lambda>i. slots r ! i) [0..<MAX_SEGMENTS])"

subsection \<open>The handlers\<close>

definition save_chunk ::
  "table \<Rightarrow> string list \<Rightarrow> bytes \<Rightarrow> (http_exception + json_dict) \<times> table" where
  "save_chunk db key body =
     (if key = []
      then (Inl (HTTPException HTTP_400_BAD_REQUEST ''Key is required''), db)
      else case pad_segments key of
             Inl e \<Rightarrow> (Inl e, db)
           | Inr segments \<Rightarrow> (Inr status_ok, insert_or_update db segments body))"

definition load_chunk :: "table \<Rightarrow> string list \<Rightarrow> (http_exception + response) \<times> table" where
  "load_chunk db key =
     (if key = []
      then (Inl (HTTPException HTTP_400_BAD_REQUEST ''Key is required''), db)
      else case pad_segments key of
             Inl e \<Rightarrow> (Inl e, db)
           | Inr segments \<Rightarrow>
               (case fetchone (map data (filter (where_point segments) db)) of
                  None \<Rightarrow> (Inl (HTTPException HTTP_404_NOT_FOUND ''Item not found''), db)
                | Some d \<Rightarrow> (Inr (Response d ''application/octet-stream''), db)))"

definition remove_chunk :: "table \<Rightarrow> string list \<Rightarrow> (http_exception + json_dict) \<times> table" where
  "remove_chunk db key =
     (if key = []
      then (Inl (HTTPException HTTP_400_BAD_REQUEST ''Key is required''), db)
      else case pad_segments key of
             Inl e \<Rightarrow> (Inl e, db)
           | Inr segments \<Rightarrow>
               (Inr status_ok, filter (\<lambda>r. \<not> where_point segments r) db))"

definition load_range ::
  "table \<Rightarrow> string list \<Rightarrow> (http_exception + range_item list) \<times> table" where
  "load_range db key =
     (if key = [] \<or> length key > MAX_SEGMENTS
      then (Inl (HTTPException HTTP_400_BAD_REQUEST
                   ''Prefix must have between 1 and 4 segments''), db)
      else (Inr (map (\<lambda>r. RangeItem (original_key r) (b64encode (data r)))
                   (fetchall_prefix key db)), db))"

definition remove_range :: "table \<Rightarrow> string list \<Rightarrow> (http_exception + json_dict) \<times> table" where
  "remove_range db key =
     (if key = [] \<or> length key > MAX_SEGMENTS
      then (Inl (HTTPException HTTP_400_BAD_REQUEST
                   ''Prefix must have between 1 and 4 segments''), db)
      else (Inr status_ok, filter (\<lambda>r. \<not> where_prefix key r) db))"

text \<open>The error names of the specification, by status code.\<close>

definition InvalidKey :: "http_exception + 'a \<Rightarrow> bool" where
  "InvalidKey res = (case res of Inl e \<Rightarrow> status_code e = HTTP_400_BAD_REQUEST | Inr _ \<Rightarrow> False)"

definition NotFound :: "http_exception + 'a \<Rightarrow> bool" where
  "NotFound res = (case res of Inl e \<Rightarrow> status_code e = HTTP_404_NOT_FOUND | Inr _ \<Rightarrow> False)"

section \<open>Properties\<close>

subsection \<open>Auxiliary facts about the statements and the handlers\<close>

lemma length4_cases: "length ps = 4 \<Longrightarrow> \<exists>a b c d. ps = [a, b, c, d]"
  by (auto simp: numeral_eq_Suc length_Suc_conv)

lemma pad_segments_valid:
  "length k \<le> 4 \<Longrightarrow> pad_segments k = Inr (k @ replicate (4 - length k) '''')"
  by (simp add: pad_segments_def MAX_SEGMENTS_def)

lemma pad_segments_invalid:
  "4 < length k \<Longrightarrow> pad_segments k = Inl (HTTPException 400 ''Key cannot have more than 4 segments'')"
  by (simp add: pad_segments_def MAX_SEGMENTS_def HTTP_400_BAD_REQUEST_def)

lemma length_slots [simp]: "length (slots r) = 4"
  by (simp add: slots_def)

lemma where_point_slots: "length ps = 4 \<Longrightarrow> where_point ps r = (slots r = ps)"
  using length4_cases [of ps] by (auto simp: where_point_def slots_def)

lemma nth_prefix_take:
  "length key \<le> length xs \<Longrightarrow>
   list_all (\<lambda>i. xs ! i = key ! i) [0..<length key] = (take (length key) xs = key)"
proof -
  assume le: "length key \<le> length xs"
  have "(take (length key) xs = key) =
        (\<forall>i<length key. take (length key) xs ! i = key ! i)"
    using le by (subst list_eq_iff_nth_eq) (simp add: min_def)
  also have "\<dots> = (\<forall>i<length key. xs ! i = key ! i)"
    by simp
  finally show ?thesis
    by (auto simp: list_all_iff)
qed

lemma where_prefix_take:
  "length key \<le> 4 \<Longrightarrow> where_prefix key r = (take (length key) (slots r) = key)"
  unfolding where_prefix_def by (rule nth_prefix_take) simp

lemma where_point_data_update [simp]: "where_point ps (r\<lparr>data := d\<rparr>) = where_point ps r"
  by (simp add: where_point_def)

lemma slots_data_update [simp]: "slots (r\<lparr>data := d\<rparr>) = slots r"
  by (simp add: slots_def)

lemma filter_insert_or_update:
  "filter (where_point ps) (insert_or_update db ps d) =
     (if list_ex (where_point ps) db
      then map (\<lambda>r. r\<lparr>data := d\<rparr>) (filter (where_point ps) db)
      else [\<lparr>segment0 = ps ! 0, segment1 = ps ! 1, segment2 = ps ! 2, segment3 = ps ! 3, data = d\<rparr>])"
proof (cases "list_ex (where_point ps) db")
  case True
  have "filter (where_point ps) (map (\<lambda>r. if where_point ps r then r\<lparr>data := d\<rparr> else r) db)
        = map (\<lambda>r. r\<lparr>data := d\<rparr>) (filter (where_point ps) db)"
    by (induction db) auto
  with True show ?thesis by (simp add: insert_or_update_def)
next
  case False
  then have "filter (where_point ps) db = []"
    by (auto simp: list_ex_iff filter_empty_conv)
  with False show ?thesis by (simp add: insert_or_update_def where_point_def)
qed

lemma fetchone_insert_or_update:
  "fetchone (map data (filter (where_point ps) (insert_or_update db ps d))) = Some d"
proof (cases "filter (where_point ps) db")
  case Nil
  then have "\<not> list_ex (where_point ps) db"
    by (auto simp: list_ex_iff filter_empty_conv)
  then show ?thesis by (simp add: filter_insert_or_update fetchone_def)
next
  case (Cons r rs)
  then have "list_ex (where_point ps) db"
    by (metis filter_empty_conv list.distinct(1) list_ex_iff)
  with Cons show ?thesis by (simp add: filter_insert_or_update fetchone_def)
qed

lemma length_pad [simp]: "length k \<le> 4 \<Longrightarrow> length (k @ replicate (4 - length k) '''') = 4"
  by simp

lemma filter_where_point_pad:
  "length k \<le> 4 \<Longrightarrow>
   filter (where_point (k @ replicate (4 - length k) '''')) db =
   filter (\<lambda>r. slots r = k @ replicate (4 - length k) '''') db"
  by (rule filter_cong) (simp_all add: where_point_slots)

lemma filter_where_prefix:
  "length p \<le> 4 \<Longrightarrow>
   filter (where_prefix p) db = filter (\<lambda>r. take (length p) (slots r) = p) db"
  by (rule filter_cong) (simp_all add: where_prefix_take)

lemma filter_not_where_prefix:
  "length p \<le> 4 \<Longrightarrow>
   filter (\<lambda>r. \<not> where_prefix p r) db = filter (\<lambda>r. take (length p) (slots r) \<noteq> p) db"
  by (rule filter_cong) (simp_all add: where_prefix_take)

lemma list_ex_where_point_slots:
  "length ps = 4 \<Longrightarrow> list_ex (where_point ps) db = (ps \<in> set (map slots db))"
  by (auto simp: list_ex_iff where_point_slots)

lemma map_slots_insert_or_update:
  "length ps = 4 \<Longrightarrow>
   map slots (insert_or_update db ps d) =
     (if ps \<in> set (map slots db) then map slots db else map slots db @ [ps])"
proof -
  assume len: "length ps = 4"
  then obtain a b c e where ps: "ps = [a, b, c, e]"
    using length4_cases by blast
  have upd: "map slots (map (\<lambda>r. if where_point ps r then r\<lparr>data := d\<rparr> else r) db) = map slots db"
    by (induction db) auto
  show ?thesis
    using len upd by (simp add: insert_or_update_def list_ex_where_point_slots)
      (simp add: ps slots_def)
qed

lemma primary_key_ok_insert_or_update:
  "length ps = 4 \<Longrightarrow> primary_key_ok db \<Longrightarrow> primary_key_ok (insert_or_update db ps d)"
  by (simp add: primary_key_ok_def map_slots_insert_or_update)

lemma slots_mem_insert_or_update:
  "length ps = 4 \<Longrightarrow> ps \<in> set (map slots (insert_or_update db ps d))"
  by (simp add: map_slots_insert_or_update)

lemma distinct_filter_one:
  "distinct (map f xs) \<Longrightarrow> y \<in> set (map f xs) \<Longrightarrow> length (filter (\<lambda>x. f x = y) xs) = 1"
proof (induction xs)
  case Nil
  then show ?case by simp
next
  case (Cons x xs)
  show ?case
  proof (cases "f x = y")
    case True
    from Cons.prems(1) have "f x \<notin> f ` set xs"
      by simp
    then have "\<And>z. z \<in> set xs \<Longrightarrow> f z \<noteq> f x"
      by (metis imageI)
    with True have "filter (\<lambda>x. f x = y) xs = []"
      by (simp add: filter_empty_conv)
    with True show ?thesis by simp
  next
    case False
    with Cons show ?thesis by auto
  qed
qed

lemma save_chunk_valid:
  "1 \<le> length k \<Longrightarrow> length k \<le> 4 \<Longrightarrow>
   save_chunk db k v = (Inr status_ok, insert_or_update db (k @ replicate (4 - length k) '''') v)"
proof -
  assume a: "1 \<le> length k" "length k \<le> 4"
  then have "k \<noteq> []" by auto
  with a show ?thesis by (simp add: save_chunk_def pad_segments_valid)
qed

lemma save_chunk_primary_key_ok:
  "primary_key_ok db \<Longrightarrow> primary_key_ok (snd (save_chunk db k v))"
  by (auto simp: save_chunk_def pad_segments_def MAX_SEGMENTS_def
      intro!: primary_key_ok_insert_or_update)

lemma InvalidKey_simps [simp]:
  "InvalidKey (Inl (HTTPException c m)) = (c = 400)"
  "InvalidKey (Inr x) = False"
  by (simp_all add: InvalidKey_def HTTP_400_BAD_REQUEST_def)

lemma NotFound_simps [simp]:
  "NotFound (Inl (HTTPException c m)) = (c = 404)"
  "NotFound (Inr x) = False"
  by (simp_all add: NotFound_def HTTP_404_NOT_FOUND_def)

lemma pad_segments_cases:
  "pad_segments k =
     (if 4 < length k then Inl (HTTPException 400 ''Key cannot have more than 4 segments'')
      else Inr (k @ replicate (4 - length k) ''''))"
  by (simp add: pad_segments_def MAX_SEGMENTS_def HTTP_400_BAD_REQUEST_def)

lemma remove_chunk_valid:
  "1 \<le> length k \<Longrightarrow> length k \<le> 4 \<Longrightarrow>
   remove_chunk db k =
     (Inr status_ok, filter (\<lambda>r. slots r \<noteq> k @ replicate (4 - length k) '''') db)"
proof -
  assume a: "1 \<le> length k" "length k \<le> 4"
  then have ne: "k \<noteq> []" by auto
  have "filter (\<lambda>r. \<not> where_point (k @ replicate (4 - length k) '''') r) db
        = filter (\<lambda>r. slots r \<noteq> k @ replicate (4 - length k) '''') db"
    using a by (intro filter_cong) (simp_all add: where_point_slots)
  with a ne show ?thesis by (simp add: remove_chunk_def pad_segments_valid)
qed

lemma load_chunk_valid:
  "1 \<le> length k \<Longrightarrow> length k \<le> 4 \<Longrightarrow>
   load_chunk db k =
     (case fetchone (map data (filter (\<lambda>r. slots r = k @ replicate (4 - length k) '''') db)) of
        None \<Rightarrow> (Inl (HTTPException HTTP_404_NOT_FOUND ''Item not found''), db)
      | Some d \<Rightarrow> (Inr (Response d ''application/octet-stream''), db))"
proof -
  assume a: "1 \<le> length k" "length k \<le> 4"
  then have ne: "k \<noteq> []" by auto
  from a ne show ?thesis
    by (simp add: load_chunk_def pad_segments_valid filter_where_point_pad)
qed

lemma remove_range_valid:
  "1 \<le> length p \<Longrightarrow> length p \<le> 4 \<Longrightarrow>
   remove_range db p = (Inr status_ok, filter (\<lambda>r. take (length p) (slots r) \<noteq> p) db)"
proof -
  assume a: "1 \<le> length p" "length p \<le> 4"
  then have ne: "p \<noteq> []" by auto
  from a ne show ?thesis
    by (simp add: remove_range_def MAX_SEGMENTS_def filter_not_where_prefix)
qed

lemma load_range_valid:
  "1 \<le> length p \<Longrightarrow> length p \<le> 4 \<Longrightarrow>
   load_range db p =
     (Inr (map (\<lambda>r. RangeItem (original_key r) (b64encode (data r)))
             (sort_key slots (filter (\<lambda>r. take (length p) (slots r) = p) db))), db)"
proof -
  assume a: "1 \<le> length p" "length p \<le> 4"
  then have ne: "p \<noteq> []" by auto
  from a ne show ?thesis
    by (simp add: load_range_def fetchall_prefix_def MAX_SEGMENTS_def filter_where_prefix)
qed

lemma sort_key_Nil_iff: "(sort_key f xs = []) = (xs = [])"
proof -
  have "(sort_key f xs = []) = (length (sort_key f xs) = 0)"
    by (simp only: length_0_conv)
  then show ?thesis
    by simp
qed

lemma filter_point_after_range:
  "take (length p) ps \<noteq> p \<Longrightarrow>
   filter (\<lambda>r. take (length p) (slots r) \<noteq> p \<and> slots r = ps) db
     = filter (\<lambda>r. slots r = ps) db"
  by (rule filter_cong) auto

lemma pad_segments_trailing_empty:
  "length k < 4 \<Longrightarrow> pad_segments (k @ ['''']) = pad_segments k"
proof -
  assume lt: "length k < 4"
  then obtain n where n: "4 - length k = Suc n"
    by (cases "4 - length k") auto
  then have "4 - Suc (length k) = n"
    by simp
  with n lt show ?thesis
    by (simp add: pad_segments_cases)
qed

lemma original_key_filter: "original_key r = filter (\<lambda>s. s \<noteq> '''') (slots r)"
proof -
  have "map (\<lambda>i. slots r ! i) [0..<length (slots r)] = slots r"
    by (rule map_nth)
  then show ?thesis
    by (simp add: original_key_def MAX_SEGMENTS_def)
qed

lemma original_key_pad_segments:
  "length k \<le> 4 \<Longrightarrow> '''' \<notin> set k \<Longrightarrow> slots r = k @ replicate (4 - length k) '''' \<Longrightarrow>
   original_key r = k"
proof -
  assume "'''' \<notin> set k"
  then have "filter (\<lambda>s. s \<noteq> '''') k = k"
    by (simp add: filter_id_conv) metis
  moreover assume "slots r = k @ replicate (4 - length k) ''''"
  ultimately show ?thesis
    by (simp add: original_key_filter)
qed

subsection \<open>C1: round trip of a point write\<close>

text \<open>
  Claim C1. For every key of one to four strings and every payload \<open>v\<close>, the empty one
  included, \<^verbatim>\<open>save_chunk\<close> answers \<^verbatim>\<open>{"status": "ok"}\<close> and a following
  \<^verbatim>\<open>load_chunk\<close> of the same key answers with exactly \<open>v\<close> as its content, whatever the
  table held before.
\<close>

theorem put_then_get:
  "1 \<le> length k \<Longrightarrow> length k \<le> 4 \<Longrightarrow>
   fst (save_chunk db k v) = Inr status_ok \<and>
   fst (load_chunk (snd (save_chunk db k v)) k) = Inr (Response v ''application/octet-stream'')"
proof -
  assume a: "1 \<le> length k" "length k \<le> 4"
  then have ne: "k \<noteq> []" by auto
  from a ne show ?thesis
    by (simp add: save_chunk_def load_chunk_def pad_segments_valid fetchone_insert_or_update)
qed

theorem put_then_get_witness:
  "fst (save_chunk [] [''doc1'', ''snap''] [1, 2]) = Inr status_ok \<and>
   fst (load_chunk (snd (save_chunk [] [''doc1'', ''snap''] [1, 2])) [''doc1'', ''snap''])
     = Inr (Response [1, 2] ''application/octet-stream'')"
  using put_then_get [of "[''doc1'', ''snap'']" "[]" "[1, 2]"] by simp

subsection \<open>C2: reconstruction of a key with an empty segment inside\<close>

text \<open>
  Claim C2 says that the reconstruction of the key in \<^verbatim>\<open>load_range\<close> removes only the
  trailing empty slots, so that a key with an empty segment in a non-trailing position, such
  as \<^verbatim>\<open>["a", "", "b"]\<close>, is returned as it was written. The code keeps the non-empty slots
  only, while its comment speaks of skipping the padding. Evaluated on that key:
  \<^verbatim>\<open>pad_segments\<close> encodes it as \<^verbatim>\<open>["a", "", "b", ""]\<close>, \<^verbatim>\<open>save_chunk\<close> stores it on the
  empty table, and \<^verbatim>\<open>load_range\<close> under the prefix \<^verbatim>\<open>["a"]\<close> reports the row with the key
  \<^verbatim>\<open>["a", "b"]\<close>, which is not the key that was written.
\<close>

theorem interior_empty_segment_lost:
  "pad_segments [''a'', '''', ''b''] = Inr [''a'', '''', ''b'', ''''] \<and>
   fst (load_range (snd (save_chunk [] [''a'', '''', ''b''] [1, 2])) [''a''])
     = Inr [RangeItem [''a'', ''b''] ''AQI=''] \<and>
   [''a'', ''b''] \<noteq> [''a'', '''', ''b'']"
  by (simp add: pad_segments_cases save_chunk_def insert_or_update_def load_range_def
      fetchall_prefix_def MAX_SEGMENTS_def where_prefix_def original_key_filter slots_def
      b64_char_def b64_alphabet_def)

subsection \<open>C3: prefix scan\<close>

text \<open>
  Claim C3. For every prefix of one to four strings, \<^verbatim>\<open>load_range\<close> returns, in some
  order, one item for each row of the table whose four slots agree with the prefix, by
  equality of strings, on the first \<open>length p\<close> slots, whatever the other slots hold, and
  no item for any other row; the table is left as it was. The answer is the empty list, and
  no exception, exactly when no row agrees with the prefix. The items are compared as
  multisets: the claim fixes which records are returned, not their order.
\<close>

theorem load_range_prefix:
  "1 \<le> length p \<Longrightarrow> length p \<le> 4 \<Longrightarrow>
   (\<exists>items. load_range db p = (Inr items, db) \<and>
      mset items =
        mset (map (\<lambda>r. RangeItem (original_key r) (b64encode (data r)))
               (filter (\<lambda>r. take (length p) (slots r) = p) db))) \<and>
   (fst (load_range db p) = Inr []) = (filter (\<lambda>r. take (length p) (slots r) = p) db = [])"
proof -
  assume a: "1 \<le> length p" "length p \<le> 4"
  let ?item = "\<lambda>r. RangeItem (original_key r) (b64encode (data r))"
  let ?rows = "filter (\<lambda>r. take (length p) (slots r) = p) db"
  have run: "load_range db p = (Inr (map ?item (sort_key slots ?rows)), db)"
    using a by (rule load_range_valid)
  have same: "mset (map ?item (sort_key slots ?rows)) = mset (map ?item ?rows)"
    by simp
  have none: "(fst (load_range db p) = Inr []) = (?rows = [])"
    by (simp add: run sort_key_Nil_iff)
  from run same none show ?thesis
    by blast
qed

theorem load_range_prefix_witness:
  "(\<exists>items.
      load_range
        [\<lparr>segment0 = ''a'', segment1 = ''c'', segment2 = '''', segment3 = '''', data = [2]\<rparr>,
         \<lparr>segment0 = ''a'', segment1 = ''b'', segment2 = '''', segment3 = '''', data = [1]\<rparr>,
         \<lparr>segment0 = ''x'', segment1 = '''', segment2 = '''', segment3 = '''', data = [3]\<rparr>]
        [''a''] =
      (Inr items,
       [\<lparr>segment0 = ''a'', segment1 = ''c'', segment2 = '''', segment3 = '''', data = [2]\<rparr>,
        \<lparr>segment0 = ''a'', segment1 = ''b'', segment2 = '''', segment3 = '''', data = [1]\<rparr>,
        \<lparr>segment0 = ''x'', segment1 = '''', segment2 = '''', segment3 = '''', data = [3]\<rparr>]) \<and>
      mset items = mset [RangeItem [''a'', ''c''] ''Ag=='', RangeItem [''a'', ''b''] ''AQ=='']) \<and>
   fst (load_range
        [\<lparr>segment0 = ''a'', segment1 = ''c'', segment2 = '''', segment3 = '''', data = [2]\<rparr>,
         \<lparr>segment0 = ''a'', segment1 = ''b'', segment2 = '''', segment3 = '''', data = [1]\<rparr>,
         \<lparr>segment0 = ''x'', segment1 = '''', segment2 = '''', segment3 = '''', data = [3]\<rparr>]
        [''a'']) =
     Inr [RangeItem [''a'', ''b''] ''AQ=='', RangeItem [''a'', ''c''] ''Ag=='']"
proof -
  let ?db =
    "[\<lparr>segment0 = ''a'', segment1 = ''c'', segment2 = '''', segment3 = '''', data = [2]\<rparr>,
      \<lparr>segment0 = ''a'', segment1 = ''b'', segment2 = '''', segment3 = '''', data = [1]\<rparr>,
      \<lparr>segment0 = ''x'', segment1 = '''', segment2 = '''', segment3 = '''', data = [3]\<rparr>]"
  have rows: "map (\<lambda>r. RangeItem (original_key r) (b64encode (data r)))
        (filter (\<lambda>r. take (length [''a'']) (slots r) = [''a'']) ?db)
      = [RangeItem [''a'', ''c''] ''Ag=='', RangeItem [''a'', ''b''] ''AQ=='']"
    by (simp add: slots_def original_key_filter b64_char_def b64_alphabet_def)
  have "1 \<le> length [''a'']" and "length [''a''] \<le> 4"
    by simp_all
  from load_range_prefix [OF this, of ?db]
  have scan: "\<exists>items. load_range ?db [''a''] = (Inr items, ?db) \<and>
      mset items = mset [RangeItem [''a'', ''c''] ''Ag=='', RangeItem [''a'', ''b''] ''AQ=='']"
    unfolding rows by (rule conjunct1)
  have order: "fst (load_range ?db [''a''])
      = Inr [RangeItem [''a'', ''b''] ''AQ=='', RangeItem [''a'', ''c''] ''Ag=='']"
    by (simp add: load_range_def fetchall_prefix_def MAX_SEGMENTS_def where_prefix_def
        slots_def original_key_filter b64_char_def b64_alphabet_def)
  from scan order show ?thesis
    by (rule conjI)
qed

subsection \<open>C4: overwriting\<close>

text \<open>
  Claim C4. On a table that satisfies its primary key, for every key of one to four strings
  and payloads \<open>v1\<close>, \<open>v2\<close>: after \<^verbatim>\<open>save_chunk\<close> with \<open>v1\<close> and then \<^verbatim>\<open>save_chunk\<close> with
  \<open>v2\<close> under the same key, \<^verbatim>\<open>load_chunk\<close> answers \<open>v2\<close>. The second write replaces the
  data of the row in place: the rows' keys are the same before and after it, exactly one row
  carries the padded key, and the primary key still holds.
\<close>

theorem put_overwrites:
  "1 \<le> length k \<Longrightarrow> length k \<le> 4 \<Longrightarrow> primary_key_ok db \<Longrightarrow>
   fst (load_chunk (snd (save_chunk (snd (save_chunk db k v1)) k v2)) k)
     = Inr (Response v2 ''application/octet-stream'') \<and>
   map slots (snd (save_chunk (snd (save_chunk db k v1)) k v2))
     = map slots (snd (save_chunk db k v1)) \<and>
   length (filter (\<lambda>r. slots r = k @ replicate (4 - length k) '''')
             (snd (save_chunk (snd (save_chunk db k v1)) k v2))) = 1 \<and>
   primary_key_ok (snd (save_chunk (snd (save_chunk db k v1)) k v2))"
proof -
  assume a: "1 \<le> length k" "length k \<le> 4" and pk: "primary_key_ok db"
  let ?ps = "k @ replicate (4 - length k) ''''"
  let ?db1 = "insert_or_update db ?ps v1"
  let ?db2 = "insert_or_update ?db1 ?ps v2"
  have len: "length ?ps = 4" using a by simp
  have ne: "k \<noteq> []" using a by auto
  have s1: "snd (save_chunk db k v1) = ?db1"
    using a by (simp add: save_chunk_valid)
  have s2: "snd (save_chunk ?db1 k v2) = ?db2"
    using a by (simp add: save_chunk_valid)
  have get: "fst (load_chunk (snd (save_chunk ?db1 k v2)) k)
      = Inr (Response v2 ''application/octet-stream'')"
    using a ne by (simp add: save_chunk_valid load_chunk_def pad_segments_valid
        fetchone_insert_or_update)
  have keys: "map slots ?db2 = map slots ?db1"
    using len by (simp only: map_slots_insert_or_update [OF len, of ?db1]
        slots_mem_insert_or_update [OF len] if_True)
  have pk2: "primary_key_ok ?db2"
    using len pk by (simp only: primary_key_ok_insert_or_update)
  have one: "length (filter (\<lambda>r. slots r = ?ps) ?db2) = 1"
    using pk2 slots_mem_insert_or_update [OF len, of ?db1 v2]
    unfolding primary_key_ok_def by (rule distinct_filter_one)
  show ?thesis
    unfolding s1 s2 using get keys one pk2 by (simp only: s2 simp_thms)
qed

theorem put_overwrites_witness:
  "primary_key_ok [] \<and>
   (fst (load_chunk (snd (save_chunk (snd (save_chunk [] [''doc1''] [1])) [''doc1''] [2]))
          [''doc1''])
     = Inr (Response [2] ''application/octet-stream'') \<and>
    map slots (snd (save_chunk (snd (save_chunk [] [''doc1''] [1])) [''doc1''] [2]))
     = map slots (snd (save_chunk [] [''doc1''] [1])) \<and>
    length (filter (\<lambda>r. slots r = [''doc1''] @ replicate (4 - length [''doc1'']) '''')
             (snd (save_chunk (snd (save_chunk [] [''doc1''] [1])) [''doc1''] [2]))) = 1 \<and>
    primary_key_ok (snd (save_chunk (snd (save_chunk [] [''doc1''] [1])) [''doc1''] [2])))"
proof
  show "primary_key_ok []"
    by (simp add: primary_key_ok_def)
next
  show "fst (load_chunk (snd (save_chunk (snd (save_chunk [] [''doc1''] [1])) [''doc1''] [2]))
          [''doc1''])
     = Inr (Response [2] ''application/octet-stream'') \<and>
    map slots (snd (save_chunk (snd (save_chunk [] [''doc1''] [1])) [''doc1''] [2]))
     = map slots (snd (save_chunk [] [''doc1''] [1])) \<and>
    length (filter (\<lambda>r. slots r = [''doc1''] @ replicate (4 - length [''doc1'']) '''')
             (snd (save_chunk (snd (save_chunk [] [''doc1''] [1])) [''doc1''] [2]))) = 1 \<and>
    primary_key_ok (snd (save_chunk (snd (save_chunk [] [''doc1''] [1])) [''doc1''] [2]))"
    by (rule put_overwrites) (simp_all add: primary_key_ok_def)
qed

subsection \<open>C5: the bound on the key length\<close>

text \<open>
  Claim C5. Each of the five handlers raises an exception with status 400 exactly when the
  key it is given is empty or has more than four segments; so for a key of one to four
  segments none of them raises status 400.
\<close>

theorem invalid_key_iff:
  "InvalidKey (fst (save_chunk db k v)) = (k = [] \<or> 4 < length k) \<and>
   InvalidKey (fst (load_chunk db k)) = (k = [] \<or> 4 < length k) \<and>
   InvalidKey (fst (remove_chunk db k)) = (k = [] \<or> 4 < length k) \<and>
   InvalidKey (fst (load_range db k)) = (k = [] \<or> 4 < length k) \<and>
   InvalidKey (fst (remove_range db k)) = (k = [] \<or> 4 < length k)"
proof -
  have put: "InvalidKey (fst (save_chunk db k v)) = (k = [] \<or> 4 < length k)"
    by (simp add: save_chunk_def pad_segments_cases HTTP_400_BAD_REQUEST_def)
  have get: "InvalidKey (fst (load_chunk db k)) = (k = [] \<or> 4 < length k)"
    by (simp add: load_chunk_def pad_segments_cases HTTP_400_BAD_REQUEST_def
        HTTP_404_NOT_FOUND_def split: option.split)
  have del: "InvalidKey (fst (remove_chunk db k)) = (k = [] \<or> 4 < length k)"
    by (simp add: remove_chunk_def pad_segments_cases HTTP_400_BAD_REQUEST_def)
  have rget: "InvalidKey (fst (load_range db k)) = (k = [] \<or> 4 < length k)"
    by (simp add: load_range_def MAX_SEGMENTS_def HTTP_400_BAD_REQUEST_def)
  have rdel: "InvalidKey (fst (remove_range db k)) = (k = [] \<or> 4 < length k)"
    by (simp add: remove_range_def MAX_SEGMENTS_def HTTP_400_BAD_REQUEST_def)
  from put get del rget rdel show ?thesis by (simp only: simp_thms)
qed

theorem invalid_key_iff_witness:
  "InvalidKey (fst (save_chunk [] [] [1])) \<and>
   InvalidKey (fst (save_chunk [] [''a'', ''b'', ''c'', ''d'', ''e''] [1])) \<and>
   InvalidKey (fst (load_chunk [] [])) \<and>
   InvalidKey (fst (remove_chunk [] [''a'', ''b'', ''c'', ''d'', ''e''])) \<and>
   InvalidKey (fst (load_range [] [])) \<and>
   InvalidKey (fst (remove_range [] [''a'', ''b'', ''c'', ''d'', ''e''])) \<and>
   \<not> InvalidKey (fst (save_chunk [] [''a'', ''b'', ''c'', ''d''] [1])) \<and>
   \<not> InvalidKey (fst (load_chunk [] [''a''])) \<and>
   \<not> InvalidKey (fst (load_range [] [''a'', ''b'']))"
  using invalid_key_iff [of "[]" "[]" "[1]"]
    invalid_key_iff [of "[]" "[''a'', ''b'', ''c'', ''d'', ''e'']" "[1]"]
    invalid_key_iff [of "[]" "[''a'', ''b'', ''c'', ''d'']" "[1]"]
    invalid_key_iff [of "[]" "[''a'']" "[1]"]
    invalid_key_iff [of "[]" "[''a'', ''b'']" "[1]"]
  by simp

subsection \<open>C6: point delete\<close>

text \<open>
  Claim C6. For every key of one to four strings, \<^verbatim>\<open>remove_chunk\<close> answers
  \<^verbatim>\<open>{"status": "ok"}\<close> on any table, whether or not a row with that key is in it; a
  \<^verbatim>\<open>load_chunk\<close> of the key afterwards raises status 404; and a second \<^verbatim>\<open>remove_chunk\<close>
  answers \<^verbatim>\<open>{"status": "ok"}\<close> again and changes nothing.
\<close>

theorem delete_idempotent:
  "1 \<le> length k \<Longrightarrow> length k \<le> 4 \<Longrightarrow>
   fst (remove_chunk db k) = Inr status_ok \<and>
   NotFound (fst (load_chunk (snd (remove_chunk db k)) k)) \<and>
   remove_chunk (snd (remove_chunk db k)) k = (Inr status_ok, snd (remove_chunk db k))"
  by (simp add: remove_chunk_valid load_chunk_valid fetchone_def HTTP_404_NOT_FOUND_def)

theorem delete_idempotent_witness:
  "fst (remove_chunk [] [''doc1'', ''snap'']) = Inr status_ok \<and>
   fst (remove_chunk
          [\<lparr>segment0 = ''doc1'', segment1 = ''snap'', segment2 = '''', segment3 = '''',
            data = [1, 2]\<rparr>] [''doc1'', ''snap'']) = Inr status_ok \<and>
   NotFound (fst (load_chunk (snd (remove_chunk
          [\<lparr>segment0 = ''doc1'', segment1 = ''snap'', segment2 = '''', segment3 = '''',
            data = [1, 2]\<rparr>] [''doc1'', ''snap''])) [''doc1'', ''snap'']))"
  using delete_idempotent [of "[''doc1'', ''snap'']" "[]"]
    delete_idempotent [of "[''doc1'', ''snap'']"
      "[\<lparr>segment0 = ''doc1'', segment1 = ''snap'', segment2 = '''', segment3 = '''',
         data = [1, 2]\<rparr>]"]
  by simp

subsection \<open>C7: prefix delete\<close>

text \<open>
  Claim C7. For every prefix \<open>p\<close> of one to four strings, \<^verbatim>\<open>remove_range\<close> answers
  \<^verbatim>\<open>{"status": "ok"}\<close> on any table, also when no row agrees with \<open>p\<close>, and the table
  afterwards is the table before without the rows whose first \<open>length p\<close> slots are \<open>p\<close>:
  no row agreeing with \<open>p\<close> is left, \<^verbatim>\<open>load_range\<close> of \<open>p\<close> answers the empty list, the
  other rows are kept as they were, and \<^verbatim>\<open>load_chunk\<close> of any key whose padded form does not
  agree with \<open>p\<close> answers as it did before.
\<close>

theorem remove_range_complete:
  "1 \<le> length p \<Longrightarrow> length p \<le> 4 \<Longrightarrow>
   remove_range db p = (Inr status_ok, filter (\<lambda>r. take (length p) (slots r) \<noteq> p) db) \<and>
   filter (\<lambda>r. take (length p) (slots r) = p) (snd (remove_range db p)) = [] \<and>
   fst (load_range (snd (remove_range db p)) p) = Inr [] \<and>
   (1 \<le> length k \<and> length k \<le> 4 \<and>
    take (length p) (k @ replicate (4 - length k) '''') \<noteq> p \<longrightarrow>
      fst (load_chunk (snd (remove_range db p)) k) = fst (load_chunk db k))"
proof -
  assume a: "1 \<le> length p" "length p \<le> 4"
  let ?db' = "filter (\<lambda>r. take (length p) (slots r) \<noteq> p) db"
  have del: "remove_range db p = (Inr status_ok, ?db')"
    using a by (rule remove_range_valid)
  have none: "filter (\<lambda>r. take (length p) (slots r) = p) ?db' = []"
    by (simp add: filter_empty_conv)
  have scan: "fst (load_range ?db' p) = Inr []"
    using a none by (simp add: load_range_valid)
  have frame: "fst (load_chunk ?db' k) = fst (load_chunk db k)"
    if k: "1 \<le> length k" "length k \<le> 4"
      and other: "take (length p) (k @ replicate (4 - length k) '''') \<noteq> p"
    using k by (simp add: load_chunk_valid filter_point_after_range [OF other]
        split: option.split)
  from del none scan frame show ?thesis
    by simp
qed

theorem remove_range_complete_witness:
  "remove_range
     [\<lparr>segment0 = ''a'', segment1 = ''b'', segment2 = '''', segment3 = '''', data = [1]\<rparr>,
      \<lparr>segment0 = ''a'', segment1 = ''c'', segment2 = '''', segment3 = '''', data = [2]\<rparr>,
      \<lparr>segment0 = ''x'', segment1 = '''', segment2 = '''', segment3 = '''', data = [3]\<rparr>]
     [''a''] =
   (Inr status_ok,
    [\<lparr>segment0 = ''x'', segment1 = '''', segment2 = '''', segment3 = '''', data = [3]\<rparr>]) \<and>
   fst (load_range (snd (remove_range
     [\<lparr>segment0 = ''a'', segment1 = ''b'', segment2 = '''', segment3 = '''', data = [1]\<rparr>,
      \<lparr>segment0 = ''a'', segment1 = ''c'', segment2 = '''', segment3 = '''', data = [2]\<rparr>,
      \<lparr>segment0 = ''x'', segment1 = '''', segment2 = '''', segment3 = '''', data = [3]\<rparr>]
     [''a''])) [''a'']) = Inr [] \<and>
   fst (load_chunk (snd (remove_range
     [\<lparr>segment0 = ''a'', segment1 = ''b'', segment2 = '''', segment3 = '''', data = [1]\<rparr>,
      \<lparr>segment0 = ''a'', segment1 = ''c'', segment2 = '''', segment3 = '''', data = [2]\<rparr>,
      \<lparr>segment0 = ''x'', segment1 = '''', segment2 = '''', segment3 = '''', data = [3]\<rparr>]
     [''a''])) [''x'']) =
   fst (load_chunk
     [\<lparr>segment0 = ''a'', segment1 = ''b'', segment2 = '''', segment3 = '''', data = [1]\<rparr>,
      \<lparr>segment0 = ''a'', segment1 = ''c'', segment2 = '''', segment3 = '''', data = [2]\<rparr>,
      \<lparr>segment0 = ''x'', segment1 = '''', segment2 = '''', segment3 = '''', data = [3]\<rparr>]
     [''x''])"
proof -
  let ?db =
    "[\<lparr>segment0 = ''a'', segment1 = ''b'', segment2 = '''', segment3 = '''', data = [1]\<rparr>,
      \<lparr>segment0 = ''a'', segment1 = ''c'', segment2 = '''', segment3 = '''', data = [2]\<rparr>,
      \<lparr>segment0 = ''x'', segment1 = '''', segment2 = '''', segment3 = '''', data = [3]\<rparr>]"
  have kept: "filter (\<lambda>r. take (length [''a'']) (slots r) \<noteq> [''a'']) ?db
      = [\<lparr>segment0 = ''x'', segment1 = '''', segment2 = '''', segment3 = '''', data = [3]\<rparr>]"
    by (simp add: slots_def)
  have other: "1 \<le> length [''x''] \<and> length [''x''] \<le> 4 \<and>
      take (length [''a'']) ([''x''] @ replicate (4 - length [''x'']) '''') \<noteq> [''a'']"
    by simp
  have "1 \<le> length [''a'']" and "length [''a''] \<le> 4"
    by simp_all
  from remove_range_complete [OF this, of ?db "[''x'']"] other show ?thesis
    unfolding kept by blast
qed

subsection \<open>C8: a trailing empty segment is padding\<close>

text \<open>
  Claim C8. For every key \<open>k\<close> of one to three strings, \<open>k\<close> with an empty string appended
  is padded to the same four slots as \<open>k\<close>; so \<^verbatim>\<open>save_chunk\<close> under the longer key followed
  by \<^verbatim>\<open>load_chunk\<close> under \<open>k\<close> answers the payload written.
\<close>

theorem trailing_empty_collides:
  "1 \<le> length k \<Longrightarrow> length k < 4 \<Longrightarrow>
   pad_segments (k @ ['''']) = pad_segments k \<and>
   fst (save_chunk db (k @ ['''']) v) = Inr status_ok \<and>
   fst (load_chunk (snd (save_chunk db (k @ ['''']) v)) k)
     = Inr (Response v ''application/octet-stream'')"
proof -
  assume a: "1 \<le> length k" "length k < 4"
  then have ne: "k \<noteq> []" by auto
  have pad: "pad_segments (k @ ['''']) = pad_segments k"
    using a by (simp add: pad_segments_trailing_empty)
  have valid: "pad_segments k = Inr (k @ replicate (4 - length k) '''')"
    using a by (simp add: pad_segments_valid)
  show ?thesis
    using ne by (simp add: pad save_chunk_def load_chunk_def valid fetchone_insert_or_update)
qed

theorem trailing_empty_collides_witness:
  "pad_segments ([''doc1''] @ ['''']) = pad_segments [''doc1''] \<and>
   fst (save_chunk [] ([''doc1''] @ ['''']) [1, 2]) = Inr status_ok \<and>
   fst (load_chunk (snd (save_chunk [] ([''doc1''] @ ['''']) [1, 2])) [''doc1''])
     = Inr (Response [1, 2] ''application/octet-stream'')"
  by (rule trailing_empty_collides) simp_all

subsection \<open>C9: a rejected point operation changes nothing\<close>

text \<open>
  Claim C9. When \<^verbatim>\<open>save_chunk\<close>, \<^verbatim>\<open>load_chunk\<close> or \<^verbatim>\<open>remove_chunk\<close> raises status 400, the
  table after the call is the table before it, and so \<^verbatim>\<open>load_chunk\<close> of any key \<open>k'\<close>
  answers afterwards what it answered before.
\<close>

theorem invalid_key_keeps_table:
  "(InvalidKey (fst (save_chunk db k v)) \<longrightarrow>
      snd (save_chunk db k v) = db \<and>
      fst (load_chunk (snd (save_chunk db k v)) k') = fst (load_chunk db k')) \<and>
   (InvalidKey (fst (load_chunk db k)) \<longrightarrow>
      snd (load_chunk db k) = db \<and>
      fst (load_chunk (snd (load_chunk db k)) k') = fst (load_chunk db k')) \<and>
   (InvalidKey (fst (remove_chunk db k)) \<longrightarrow>
      snd (remove_chunk db k) = db \<and>
      fst (load_chunk (snd (remove_chunk db k)) k') = fst (load_chunk db k'))"
proof -
  have put: "snd (save_chunk db k v) = db" if "InvalidKey (fst (save_chunk db k v))"
    using that by (auto simp: save_chunk_def pad_segments_cases split: if_splits)
  have get: "snd (load_chunk db k) = db"
    by (simp add: load_chunk_def pad_segments_cases split: option.split)
  have del: "snd (remove_chunk db k) = db" if "InvalidKey (fst (remove_chunk db k))"
    using that by (auto simp: remove_chunk_def pad_segments_cases split: if_splits)
  from put get del show ?thesis
    by simp
qed

theorem invalid_key_keeps_table_witness:
  "InvalidKey (fst (save_chunk
      [\<lparr>segment0 = ''x'', segment1 = '''', segment2 = '''', segment3 = '''', data = [3]\<rparr>]
      [''a'', ''b'', ''c'', ''d'', ''e''] [1])) \<and>
   snd (save_chunk
      [\<lparr>segment0 = ''x'', segment1 = '''', segment2 = '''', segment3 = '''', data = [3]\<rparr>]
      [''a'', ''b'', ''c'', ''d'', ''e''] [1])
     = [\<lparr>segment0 = ''x'', segment1 = '''', segment2 = '''', segment3 = '''', data = [3]\<rparr>] \<and>
   InvalidKey (fst (load_chunk
      [\<lparr>segment0 = ''x'', segment1 = '''', segment2 = '''', segment3 = '''', data = [3]\<rparr>] [])) \<and>
   snd (load_chunk
      [\<lparr>segment0 = ''x'', segment1 = '''', segment2 = '''', segment3 = '''', data = [3]\<rparr>] [])
     = [\<lparr>segment0 = ''x'', segment1 = '''', segment2 = '''', segment3 = '''', data = [3]\<rparr>] \<and>
   InvalidKey (fst (remove_chunk
      [\<lparr>segment0 = ''x'', segment1 = '''', segment2 = '''', segment3 = '''', data = [3]\<rparr>] [])) \<and>
   snd (remove_chunk
      [\<lparr>segment0 = ''x'', segment1 = '''', segment2 = '''', segment3 = '''', data = [3]\<rparr>] [])
     = [\<lparr>segment0 = ''x'', segment1 = '''', segment2 = '''', segment3 = '''', data = [3]\<rparr>]"
proof -
  let ?db = "[\<lparr>segment0 = ''x'', segment1 = '''', segment2 = '''', segment3 = '''', data = [3]\<rparr>]"
  have i1: "InvalidKey (fst (save_chunk ?db [''a'', ''b'', ''c'', ''d'', ''e''] [1]))"
    by (simp add: save_chunk_def pad_segments_cases)
  have i2: "InvalidKey (fst (load_chunk ?db []))"
    by (simp add: load_chunk_def HTTP_400_BAD_REQUEST_def)
  have i3: "InvalidKey (fst (remove_chunk ?db []))"
    by (simp add: remove_chunk_def HTTP_400_BAD_REQUEST_def)
  from i1 i2 i3
    invalid_key_keeps_table [of ?db "[''a'', ''b'', ''c'', ''d'', ''e'']" "[1]" "[]"]
    invalid_key_keeps_table [of ?db "[]" "[1]" "[]"]
  show ?thesis by blast
qed

subsection \<open>C10: keys returned by a prefix scan\<close>

text \<open>
  Claim C10. No key in an answer of \<^verbatim>\<open>load_range\<close> contains the empty string: the
  reconstruction keeps the non-empty slots only. A row stored as \<^verbatim>\<open>["a", "", "b", ""]\<close> is
  reported with the key \<^verbatim>\<open>["a", "b"]\<close>.
\<close>

theorem range_keys_without_empty:
  "(fst (load_range db p) = Inr items \<longrightarrow>
      list_all (\<lambda>item. '''' \<notin> set (item_key item)) items) \<and>
   fst (load_range
          [\<lparr>segment0 = ''a'', segment1 = '''', segment2 = ''b'', segment3 = '''', data = d\<rparr>]
          [''a''])
     = Inr [RangeItem [''a'', ''b''] (b64encode d)]"
proof
  show "fst (load_range db p) = Inr items \<longrightarrow>
      list_all (\<lambda>item. '''' \<notin> set (item_key item)) items"
    by (auto simp: load_range_def fetchall_prefix_def list_all_iff original_key_filter
        split: if_splits)
next
  show "fst (load_range
          [\<lparr>segment0 = ''a'', segment1 = '''', segment2 = ''b'', segment3 = '''', data = d\<rparr>]
          [''a''])
     = Inr [RangeItem [''a'', ''b''] (b64encode d)]"
    by (simp add: load_range_def fetchall_prefix_def MAX_SEGMENTS_def where_prefix_def
        original_key_filter slots_def)
qed

theorem range_keys_without_empty_witness:
  "fst (load_range
          [\<lparr>segment0 = ''a'', segment1 = '''', segment2 = ''b'', segment3 = '''', data = [1, 2]\<rparr>]
          [''a''])
     = Inr [RangeItem [''a'', ''b''] ''AQI=''] \<and>
   list_all (\<lambda>item. '''' \<notin> set (item_key item)) [RangeItem [''a'', ''b''] ''AQI='']"
proof -
  have run: "fst (load_range
          [\<lparr>segment0 = ''a'', segment1 = '''', segment2 = ''b'', segment3 = '''', data = [1, 2]\<rparr>]
          [''a''])
     = Inr [RangeItem [''a'', ''b''] ''AQI='']"
    by (simp add: load_range_def fetchall_prefix_def MAX_SEGMENTS_def where_prefix_def
        original_key_filter slots_def b64_char_def b64_alphabet_def)
  from run range_keys_without_empty
    [of "[\<lparr>segment0 = ''a'', segment1 = '''', segment2 = ''b'', segment3 = '''', data = [1, 2]\<rparr>]"
        "[''a'']" "[RangeItem [''a'', ''b''] ''AQI='']"]
  show ?thesis by blast
qed

end
